theory Spec2Isabelle
  imports Main "HOL-Library.AList"
begin

section \<open>Python strings\<close>

text \<open>
  A Python \<open>str\<close> is modelled as a \<open>string\<close> whose characters are the code points
  below 256. The functions of this section are the methods of \<open>str\<close> that the
  sources call, restricted to these code points.
\<close>

text \<open>\<open>str.isspace\<close> on one character: TAB, LF, VT, FF, CR, FS, GS, RS, US, space,
  NEL (0x85) and the no-break space (0xA0).\<close>

definition is_space :: "char \<Rightarrow> bool" where
  "is_space c = (c \<in> set [CHR 0x09, CHR 0x0A, CHR 0x0B, CHR 0x0C, CHR 0x0D,
                             CHR 0x1C, CHR 0x1D, CHR 0x1E, CHR 0x1F, CHR 0x20,
                             CHR 0x85, CHR 0xA0])"

text \<open>\<open>str.lower\<close> on one character: A-Z and the capital letters 0xC0-0xDE
  (without the multiplication sign 0xD7) move up by 32.\<close>

definition lower_char :: "char \<Rightarrow> char" where
  "lower_char c =
     (let n = (of_char c :: nat)
      in if (65 \<le> n \<and> n \<le> 90) \<or> (192 \<le> n \<and> n \<le> 222 \<and> n \<noteq> 215)
         then char_of (n + 32) else c)"

definition lower :: "string \<Rightarrow> string" where
  "lower s = map lower_char s"

text \<open>\<open>s.strip()\<close>\<close>

definition strip :: "string \<Rightarrow> string" where
  "strip s = rev (dropWhile is_space (rev (dropWhile is_space s)))"

text \<open>\<open>s.startswith(p)\<close>\<close>

definition startswith :: "string \<Rightarrow> string \<Rightarrow> bool" where
  "startswith p s = (take (length p) s = p)"

text \<open>\<open>sub in s\<close>\<close>

fun str_contains :: "string \<Rightarrow> string \<Rightarrow> bool" where
  "str_contains sub [] = (sub = [])"
| "str_contains sub (c # cs) = (startswith sub (c # cs) \<or> str_contains sub cs)"

text \<open>\<open>s.replace(old, new)\<close>: the occurrences of \<open>old\<close> are found from the left, without
  overlap, and every one is replaced. For an empty \<open>old\<close> Python puts \<open>new\<close> before
  every character and at the end.\<close>

function str_replace :: "string \<Rightarrow> string \<Rightarrow> string \<Rightarrow> string" where
  "str_replace old new s =
     (if old = [] then new @ concat (map (\<lambda>c. c # new) s)
      else if s = [] then []
      else if startswith old s then new @ str_replace old new (drop (length old) s)
      else hd s # str_replace old new (tl s))"
  by pat_completeness auto
termination
  by (relation "measure (\<lambda>(old, new, s). length s)") auto

text \<open>\<open>s.split(sep)\<close> for a separator of one character.\<close>

fun split_on :: "char \<Rightarrow> string \<Rightarrow> string list" where
  "split_on sep [] = [[]]"
| "split_on sep (c # cs) =
     (if c = sep then [] # split_on sep cs
      else (case split_on sep cs of
              [] \<Rightarrow> [[c]]
            | w # ws \<Rightarrow> (c # w) # ws))"

text \<open>\<open>s.split()\<close>: the maximal runs of characters that are not whitespace.\<close>

function split_ws :: "string \<Rightarrow> string list" where
  "split_ws s =
     (let r = dropWhile is_space s
      in if r = [] then []
         else takeWhile (\<lambda>c. \<not> is_space c) r # split_ws (dropWhile (\<lambda>c. \<not> is_space c) r))"
  by pat_completeness auto
termination
proof (relation "measure length")
  fix s r :: string
  assume r: "r = dropWhile is_space s" and ne: "r \<noteq> []"
  have "length (dropWhile (\<lambda>c. \<not> is_space c) r) < length r"
  proof (cases r)
    case Nil
    with ne show ?thesis by simp
  next
    case (Cons a as)
    have "\<not> is_space (hd r)"
      using hd_dropWhile [of is_space s] r ne by simp
    then have "\<not> is_space a"
      using Cons by simp
    then have "dropWhile (\<lambda>c. \<not> is_space c) r = dropWhile (\<lambda>c. \<not> is_space c) as"
      using Cons by simp
    then show ?thesis
      using Cons length_dropWhile_le [of "\<lambda>c. \<not> is_space c" as] by simp
  qed
  moreover have "length r \<le> length s"
    using r length_dropWhile_le [of is_space s] by simp
  ultimately show "(dropWhile (\<lambda>c. \<not> is_space c) r, s) \<in> measure length"
    by simp
qed simp

declare str_replace.simps [simp del]
declare split_ws.simps [simp del]


section \<open>memory\_storage.py\<close>

text \<open>
  A Python \<open>dict\<close> is an association list with distinct keys, in insertion order:
  \<open>d[k] = v\<close> is \<open>AList.update k v d\<close> (the value is replaced in place, or the pair is
  added at the end), \<open>d.get(k)\<close> is \<open>map_of d k\<close>, and \<open>k in d\<close> is
  \<open>map_of d k \<noteq> None\<close>.

  The file \<open>memories.json\<close> is absent or holds a text. \<open>json.load\<close> either rejects the
  text or returns the mapping it denotes, and \<open>json.dump\<close> writes a text that denotes the
  mapping it was given; the text is modelled by that reading. A well-formed text holds
  an object of objects of strings, as every \<open>save\<close> writes. Reading and writing the file
  themselves are taken to succeed.
\<close>

type_synonym memory_dict = "(string \<times> string) list"
type_synonym store_data = "(string \<times> memory_dict) list"

datatype file_text = Json store_data | Malformed

type_synonym json_file = "file_text option"

datatype py_error = JSONDecodeError | AttributeError | OverflowError

record MemoryStore =
  profile_id :: string
  data :: store_data

definition load :: "json_file \<Rightarrow> py_error + store_data" where
  "load f =
     (case f of
        Some txt \<Rightarrow> (case txt of Json d \<Rightarrow> Inr d | Malformed \<Rightarrow> Inl JSONDecodeError)
      | None \<Rightarrow> Inr [])"

text \<open>\<open>MemoryStore(profile_id)\<close>: the constructor.\<close>

definition new_store :: "json_file \<Rightarrow> string \<Rightarrow> py_error + MemoryStore" where
  "new_store f p =
     (case load f of
        Inl e \<Rightarrow> Inl e
      | Inr d \<Rightarrow> Inr \<lparr>profile_id = p, data = d\<rparr>)"

definition save :: "MemoryStore \<Rightarrow> json_file" where
  "save m = Some (Json (data m))"

definition set_entry :: "MemoryStore \<Rightarrow> json_file \<Rightarrow> string \<Rightarrow> string \<Rightarrow> MemoryStore \<times> json_file" where
  "set_entry m f key val =
     (let d = (if map_of (data m) (profile_id m) = None
               then AList.update (profile_id m) [] (data m) else data m);
          inner = (case map_of d (profile_id m) of None \<Rightarrow> [] | Some i \<Rightarrow> i);
          m' = m\<lparr>data := AList.update (profile_id m) (AList.update key val inner) d\<rparr>
      in (m', save m'))"

definition get_all :: "MemoryStore \<Rightarrow> memory_dict" where
  "get_all m = (case map_of (data m) (profile_id m) of None \<Rightarrow> [] | Some i \<Rightarrow> i)"

definition clear :: "MemoryStore \<Rightarrow> json_file \<Rightarrow> MemoryStore \<times> json_file" where
  "clear m f =
     (if map_of (data m) (profile_id m) \<noteq> None
      then (let m' = m\<lparr>data := AList.update (profile_id m) [] (data m)\<rparr> in (m', save m'))
      else (m, f))"

text \<open>The states of one store and its file: the constructor has read the file, and the
  store's own \<open>set\<close> and \<open>clear\<close> are the only writers since.\<close>

inductive reachable :: "MemoryStore \<times> json_file \<Rightarrow> bool" where
  init: "new_store f p = Inr m \<Longrightarrow> reachable (m, f)"
| step_set: "reachable (m, f) \<Longrightarrow> reachable (set_entry m f key val)"
| step_clear: "reachable (m, f) \<Longrightarrow> reachable (clear m f)"

text \<open>A restart: the process ends, and a new store for the same profile is made from
  the file.\<close>

definition restart :: "MemoryStore \<times> json_file \<Rightarrow> py_error + MemoryStore" where
  "restart s = new_store (snd s) (profile_id (fst s))"


section \<open>The session state\<close>

text \<open>
  \<open>st.session_state\<close> with the keys the two modules use, each absent or present, and the
  file of the memory store beside it. \<open>ui\<close> is what the page has shown so far and
  \<open>model_calls\<close> the requests made to the inference engine, both in order.
\<close>

datatype role = User | Assistant

text \<open>The content of a transcript entry: a text, or the text
  \<open>An error occurred: <str(e)>\<close> behind a cross mark.\<close>

datatype content = Text string | ErrorOccurred string

type_synonym message = "role \<times> content"

text \<open>The call \<open>granite.chat(system_prompt=context, user_message=prompt, max_new_tokens=1024, ...)\<close>:
  the context is the fixed system prompt with the persona and the memory of the profile
  put in. The three sampling parameters are floating-point constants and are left out.\<close>

record chat_request =
  persona_of :: string
  memory_context :: memory_dict
  user_message :: string
  max_new_tokens :: nat

text \<open>What \<open>app.py\<close> shows, one constructor for each call of \<open>st.warning\<close>,
  \<open>st.success\<close>, \<open>st.error\<close>, \<open>st.info\<close>, \<open>st.json\<close> and \<open>st.markdown\<close> in the
  chat part of the script.\<close>

datatype ui_event =
    WarnLoadModel
  | ChatMessage role string
  | SuccessRemembered string string
  | ErrorUsage
  | SuccessCleared
  | InfoMemory memory_dict
  | InfoNoMemory
  | ErrorModelNotReady
  | ErrorRetry
  | ErrorException string

record session_state =
  messages :: "message list option"
  memory :: "MemoryStore option"
  current_page :: "string option"
  model_ready :: bool
  memories_json :: json_file
  ui :: "ui_event list"
  model_calls :: "chat_request list"

section \<open>voice\_commands.py\<close>

text \<open>The texts the handlers return, one constructor for each string of the source:
  the help text, \<open>Chat history cleared!\<close>, \<open>Remembered: <info>\<close>,
  \<open>Please specify what to remember\<close>, \<open>Stored memories: <dict>\<close>,
  \<open>No memories stored yet\<close>, \<open>Memory system not available\<close>,
  \<open>Navigated to <page>\<close>, \<open>Unknown navigation destination\<close>,
  \<open>Unknown information request\<close>, \<open>Data saved successfully!\<close>,
  \<open>Data exported successfully!\<close> and the four advice texts.\<close>

datatype response =
    HelpText
  | ChatCleared
  | Remembered string
  | PleaseSpecify
  | StoredMemories memory_dict
  | NoMemories
  | MemoryUnavailable
  | NavigatedTo string
  | UnknownDestination
  | UnknownInformation
  | DataSaved
  | DataExported
  | BudgetingTips
  | InvestmentBasics
  | SavingsStrategies
  | ExpenseManagement

type_synonym handler = "session_state \<Rightarrow> string \<Rightarrow> response \<times> session_state"

subsection \<open>The three regular expressions\<close>

text \<open>\<open>re.search\<close>: the first position from the left at which the pattern matches.\<close>

fun re_search :: "(string \<Rightarrow> 'a option) \<Rightarrow> string \<Rightarrow> 'a option" where
  "re_search m [] = m []"
| "re_search m (c # cs) = (case m (c # cs) of Some g \<Rightarrow> Some g | None \<Rightarrow> re_search m cs)"

text \<open>The tail \<open>\s+(.+)\<close> of each pattern, matched at the start of \<open>s\<close>. \<open>\s+\<close> is greedy:
  it takes \<open>j\<close> whitespace characters, as many as it can, and gives them back one by one
  while \<open>.+\<close>, which needs a character other than LF, fails. The group runs to the end of
  the line.\<close>

fun spaces_then_group :: "nat \<Rightarrow> string \<Rightarrow> string option" where
  "spaces_then_group 0 s = None"
| "spaces_then_group (Suc j) s =
     (case drop (Suc j) s of
        [] \<Rightarrow> spaces_then_group j s
      | c # r \<Rightarrow> if c = CHR 0x0A then spaces_then_group j s
                 else Some (takeWhile (\<lambda>x. x \<noteq> CHR 0x0A) (c # r)))"

definition tail_group :: "string \<Rightarrow> string option" where
  "tail_group s = spaces_then_group (length (takeWhile is_space s)) s"

text \<open>\<open>remember\s+(.+)\<close>, \<open>go\s+to\s+(.+)\<close> and \<open>show\s+(.+)\<close> at the start of \<open>s\<close>, with
  group 1. In the second pattern the first \<open>\s+\<close> stands before a \<open>t\<close>, so it takes the
  whole run of whitespace or the match fails.\<close>

definition match_remember :: "string \<Rightarrow> string option" where
  "match_remember s =
     (if startswith ''remember'' s then tail_group (drop 8 s) else None)"

definition match_go_to :: "string \<Rightarrow> string option" where
  "match_go_to s =
     (if startswith ''go'' s
      then (let r = drop 2 s; n = length (takeWhile is_space r)
            in if 1 \<le> n \<and> startswith ''to'' (drop n r)
               then tail_group (drop (n + 2) r) else None)
      else None)"

definition match_show :: "string \<Rightarrow> string option" where
  "match_show s =
     (if startswith ''show'' s then tail_group (drop 4 s) else None)"

subsection \<open>The handlers\<close>

definition show_help :: handler where
  "show_help st text = (HelpText, st)"

definition clear_chat :: handler where
  "clear_chat st text =
     (ChatCleared, if messages st \<noteq> None then st\<lparr>messages := Some []\<rparr> else st)"

definition remember_info :: handler where
  "remember_info st text =
     (case re_search match_remember text of
        Some g \<Rightarrow>
          (let info = strip g
           in (Remembered info,
               (case memory st of
                  Some m \<Rightarrow>
                    (let (m', f') = set_entry m (memories_json st) ''voice_note'' info
                     in st\<lparr>memory := Some m', memories_json := f'\<rparr>)
                | None \<Rightarrow> st)))
      | None \<Rightarrow> (PleaseSpecify, st))"

definition show_memory :: handler where
  "show_memory st text =
     (case memory st of
        Some m \<Rightarrow>
          (let memory_data = get_all m
           in if memory_data \<noteq> [] then (StoredMemories memory_data, st)
              else (NoMemories, st))
      | None \<Rightarrow> (MemoryUnavailable, st))"

definition go_to_dashboard :: handler where
  "go_to_dashboard st text = (NavigatedTo ''Dashboard'', st\<lparr>current_page := Some ''Dashboard''\<rparr>)"

definition go_to_settings :: handler where
  "go_to_settings st text = (NavigatedTo ''Settings'', st\<lparr>current_page := Some ''Settings''\<rparr>)"

definition go_to_analytics :: handler where
  "go_to_analytics st text =
     (NavigatedTo ''Analytics'', st\<lparr>current_page := Some ''Financial Analytics''\<rparr>)"

definition go_to_chat :: handler where
  "go_to_chat st text =
     (NavigatedTo ''Chat Assistant'', st\<lparr>current_page := Some ''Chat Assistant''\<rparr>)"

definition navigate_to :: handler where
  "navigate_to st text =
     (if str_contains ''dashboard'' text then go_to_dashboard st text
      else if str_contains ''settings'' text then go_to_settings st text
      else if str_contains ''analytics'' text then go_to_analytics st text
      else if str_contains ''chat'' text then go_to_chat st text
      else (UnknownDestination, st))"

definition show_info :: handler where
  "show_info st text =
     (if str_contains ''help'' text then show_help st text
      else if str_contains ''memory'' text \<or> str_contains ''remember'' text
      then show_memory st text
      else (UnknownInformation, st))"

definition save_data :: handler where
  "save_data st text = (DataSaved, st)"

definition export_data :: handler where
  "export_data st text = (DataExported, st)"

definition budget_help :: handler where
  "budget_help st text = (BudgetingTips, st)"

definition investment_help :: handler where
  "investment_help st text = (InvestmentBasics, st)"

definition savings_help :: handler where
  "savings_help st text = (SavingsStrategies, st)"

definition expenses_help :: handler where
  "expenses_help st text = (ExpenseManagement, st)"

subsection \<open>The registry and the dispatch\<close>

text \<open>\<open>self.commands\<close>: a \<open>dict\<close> literal, iterated in the order it is written.\<close>

definition commands :: "(string \<times> handler) list" where
  "commands =
     [(''help'', show_help),
      (''clear'', clear_chat),
      (''remember'', remember_info),
      (''what do you remember'', show_memory),
      (''dashboard'', go_to_dashboard),
      (''settings'', go_to_settings),
      (''analytics'', go_to_analytics),
      (''chat'', go_to_chat),
      (''save'', save_data),
      (''export'', export_data),
      (''budget'', budget_help),
      (''invest'', investment_help),
      (''savings'', savings_help),
      (''expenses'', expenses_help)]"

text \<open>The loop \<open>for command, func in self.commands.items(): if command in text: return func(text)\<close>,
  up to the handler it picks.\<close>

fun first_command :: "(string \<times> handler) list \<Rightarrow> string \<Rightarrow> handler option" where
  "first_command [] text = None"
| "first_command ((command, func) # rest) text =
     (if str_contains command text then Some func else first_command rest text)"

definition process_voice_command :: "session_state \<Rightarrow> string \<Rightarrow> response option \<times> session_state" where
  "process_voice_command st text0 =
     (let text = strip (lower text0)
      in case first_command commands text of
           Some func \<Rightarrow> (let (r, st') = func st text in (Some r, st'))
         | None \<Rightarrow>
             if re_search match_remember text \<noteq> None
             then (let (r, st') = remember_info st text in (Some r, st'))
             else if re_search match_go_to text \<noteq> None
             then (let (r, st') = navigate_to st text in (Some r, st'))
             else if re_search match_show text \<noteq> None
             then (let (r, st') = show_info st text in (Some r, st'))
             else (None, st))"


section \<open>app.py: one chat turn\<close>

text \<open>Lines 72 to 76 of the script: \<open>messages\<close> and \<open>memory\<close> are put into the session
  state when they are not there. The constructor of the store reads the file, and its
  error is not caught.\<close>

definition init_session :: "string \<Rightarrow> session_state \<Rightarrow> py_error + session_state" where
  "init_session pid st =
     (let st1 = (if messages st = None then st\<lparr>messages := Some []\<rparr> else st)
      in if memory st1 = None
         then (case new_store (memories_json st1) pid of
                 Inl e \<Rightarrow> Inl e
               | Inr m \<Rightarrow> Inr (st1\<lparr>memory := Some m\<rparr>))
         else Inr st1)"

text \<open>The three conditions of the \<open>if\<close>/\<open>elif\<close> chain that keep a prompt away from the
  model.\<close>

definition is_remember :: "string \<Rightarrow> bool" where
  "is_remember prompt = startswith ''/remember '' prompt"

definition is_clear :: "string \<Rightarrow> bool" where
  "is_clear prompt = (lower (strip prompt) = ''/clear'')"

definition is_what_do_you_remember :: "string \<Rightarrow> bool" where
  "is_what_do_you_remember prompt = (lower (strip prompt) = ''what do you remember?'')"

text \<open>\<open>any(keyword in response.lower() for keyword in ["error", "apologize", "sorry"])\<close>\<close>

definition looks_failed :: "string \<Rightarrow> bool" where
  "looks_failed response =
     list_ex (\<lambda>keyword. str_contains keyword (lower response)) [''error'', ''apologize'', ''sorry'']"

text \<open>The block under \<open>if prompt := st.chat_input(...)\<close>, lines 130 to 195; an empty
  prompt does not enter it. \<open>chat\<close> is the inference engine: it returns a text, or raises an
  exception \<open>e\<close>, given as \<open>str(e)\<close>. The block runs after \<open>init_session\<close>, so \<open>messages\<close>
  and \<open>memory\<close> are present; a state without them gives the \<open>AttributeError\<close> of the
  first access.\<close>

definition chat_turn ::
  "(chat_request \<Rightarrow> string + string) \<Rightarrow> string \<Rightarrow> session_state \<Rightarrow> string
     \<Rightarrow> py_error + session_state" where
  "chat_turn chat persona st prompt =
     (if prompt = [] then Inr st else
      case (messages st, memory st) of
        (Some msgs, Some mem) \<Rightarrow>
          (let st1 = (if \<not> model_ready st then st\<lparr>ui := ui st @ [WarnLoadModel]\<rparr>
                      else st\<lparr>messages := Some (msgs @ [(User, Text prompt)]),
                              ui := ui st @ [ChatMessage User prompt]\<rparr>);
               msgs1 = (if \<not> model_ready st then msgs else msgs @ [(User, Text prompt)])
           in if startswith ''/remember '' prompt then
                (let key_value = split_on CHR ''='' (str_replace ''/remember '' [] prompt)
                 in if length key_value = 2 then
                      (let (mem', f') = set_entry mem (memories_json st1)
                                          (strip (key_value ! 0)) (strip (key_value ! 1))
                       in Inr (st1\<lparr>memory := Some mem', memories_json := f',
                                    ui := ui st1 @ [SuccessRemembered (strip (key_value ! 0))
                                                                       (strip (key_value ! 1))]\<rparr>))
                    else Inr (st1\<lparr>ui := ui st1 @ [ErrorUsage]\<rparr>))
              else if lower (strip prompt) = ''/clear'' then
                (let (mem', f') = clear mem (memories_json st1)
                 in Inr (st1\<lparr>memory := Some mem', memories_json := f',
                              ui := ui st1 @ [SuccessCleared]\<rparr>))
              else if lower (strip prompt) = ''what do you remember?'' then
                (let memory_data = get_all mem
                 in if memory_data \<noteq> [] then Inr (st1\<lparr>ui := ui st1 @ [InfoMemory memory_data]\<rparr>)
                    else Inr (st1\<lparr>ui := ui st1 @ [InfoNoMemory]\<rparr>))
              else if \<not> model_ready st then Inr (st1\<lparr>ui := ui st1 @ [ErrorModelNotReady]\<rparr>)
              else
                (let request = \<lparr>persona_of = persona, memory_context = get_all mem,
                                user_message = prompt, max_new_tokens = 1024\<rparr>;
                     st2 = st1\<lparr>model_calls := model_calls st1 @ [request]\<rparr>
                 in case chat request of
                      Inr response \<Rightarrow>
                        if looks_failed response then Inr (st2\<lparr>ui := ui st2 @ [ErrorRetry]\<rparr>)
                        else Inr (st2\<lparr>ui := ui st2 @ [ChatMessage Assistant response],
                                      messages := Some (msgs1 @ [(Assistant, Text response)])\<rparr>)
                    | Inl e \<Rightarrow>
                        Inr (st2\<lparr>ui := ui st2 @ [ErrorException e],
                                 messages := Some (msgs1 @ [(Assistant, ErrorOccurred e)])\<rparr>)))
      | _ \<Rightarrow> Inl AttributeError)"

section \<open>main.py: tokens\<close>

subsection \<open>\<open>create_access_token\<close>\<close>

text \<open>A \<open>datetime\<close> is the number of microseconds since the start of year 1 and a
  \<open>timedelta\<close> a number of microseconds. A \<open>datetime\<close> ends with year 9999, on day
  3652059; a sum outside the range raises \<open>OverflowError\<close>.\<close>

definition minutes :: "int \<Rightarrow> int" where
  "minutes n = n * 60 * 1000000"

definition datetime_max :: int where
  "datetime_max = 3652059 * 86400 * 1000000 - 1"

definition datetime_add :: "int \<Rightarrow> int \<Rightarrow> py_error + int" where
  "datetime_add t d = (if 0 \<le> t + d \<and> t + d \<le> datetime_max then Inr (t + d) else Inl OverflowError)"

definition ACCESS_TOKEN_EXPIRE_MINUTES :: int where
  "ACCESS_TOKEN_EXPIRE_MINUTES = 30"

datatype claim_value = StrClaim string | TimeClaim int

type_synonym claims = "(string \<times> claim_value) list"

text \<open>The dictionary handed to \<open>jwt.encode\<close>. \<open>utcnow\<close> is the reading of the clock;
  \<open>if expires_delta:\<close> is false for \<open>None\<close> and for a \<open>timedelta\<close> of zero.\<close>

definition to_encode :: "int \<Rightarrow> claims \<Rightarrow> int option \<Rightarrow> py_error + claims" where
  "to_encode utcnow data_in expires_delta =
     (case (if expires_delta \<noteq> None \<and> expires_delta \<noteq> Some 0
            then datetime_add utcnow (case expires_delta of Some d \<Rightarrow> d | None \<Rightarrow> 0)
            else datetime_add utcnow (minutes 15)) of
        Inl e \<Rightarrow> Inl e
      | Inr expire \<Rightarrow> Inr (AList.update ''exp'' (TimeClaim expire) data_in))"

text \<open>\<open>jwt_encode\<close> stands for \<open>jwt.encode(_, SECRET_KEY, algorithm=ALGORITHM)\<close>.\<close>

definition create_access_token ::
  "(claims \<Rightarrow> string) \<Rightarrow> int \<Rightarrow> claims \<Rightarrow> int option \<Rightarrow> py_error + string" where
  "create_access_token jwt_encode utcnow data_in expires_delta =
     (case to_encode utcnow data_in expires_delta of
        Inl e \<Rightarrow> Inl e
      | Inr c \<Rightarrow> Inr (jwt_encode c))"

text \<open>What the signup and the two login routes do to issue a token.\<close>

definition route_token :: "(claims \<Rightarrow> string) \<Rightarrow> int \<Rightarrow> string \<Rightarrow> py_error + string" where
  "route_token jwt_encode utcnow email =
     create_access_token jwt_encode utcnow [(''sub'', StrClaim email)]
       (Some (minutes ACCESS_TOKEN_EXPIRE_MINUTES))"

subsection \<open>\<open>get_current_user\<close>\<close>

datatype http_error = Not_authenticated_401 | Invalid_authentication_scheme_400

text \<open>The truth value of an \<open>Optional[str]\<close>.\<close>

definition truthy :: "string option \<Rightarrow> bool" where
  "truthy x = (x \<noteq> None \<and> x \<noteq> Some [])"

text \<open>\<open>token\<close> is what \<open>oauth2_scheme\<close> found, \<open>access_token\<close> the cookie of that name and
  \<open>authorization\<close> the header of the request, each absent or a string. The two steps
  follow the two \<open>if\<close> statements; the second one raises.\<close>

definition token_from_cookie :: "string option \<Rightarrow> string option \<Rightarrow> string option" where
  "token_from_cookie token access_token =
     (if \<not> truthy token \<and> truthy access_token
      then (case access_token of Some c \<Rightarrow> Some (str_replace ''Bearer '' [] c) | None \<Rightarrow> token)
      else token)"

definition token_from_header :: "string option \<Rightarrow> string option \<Rightarrow> http_error + string option" where
  "token_from_header token authorization =
     (if \<not> truthy token \<and> authorization \<noteq> None
      then (case authorization of
              Some h \<Rightarrow>
                (case split_ws (strip h) of
                   [scheme, tok] \<Rightarrow>
                     if lower scheme \<noteq> ''bearer'' then Inl Invalid_authentication_scheme_400
                     else Inr (Some tok)
                 | _ \<Rightarrow> Inl Not_authenticated_401)
            | None \<Rightarrow> Inr token)
      else Inr token)"

text \<open>Lines 85 to 99: the token that goes to \<open>jwt.decode\<close>, or the error raised.\<close>

definition extract_token ::
  "string option \<Rightarrow> string option \<Rightarrow> string option \<Rightarrow> http_error + string" where
  "extract_token token access_token authorization =
     (case token_from_header (token_from_cookie token access_token) authorization of
        Inl e \<Rightarrow> Inl e
      | Inr t \<Rightarrow> (case t of
                    Some tok \<Rightarrow> if tok = [] then Inl Not_authenticated_401 else Inr tok
                  | None \<Rightarrow> Inl Not_authenticated_401))"

section \<open>The claims as the specification words them\<close>

text \<open>The specification has the cookie's value used after a leading \<open>Bearer \<close> is
  stripped, and the \<open>/remember\<close> directive read after its prefix is stripped. The next
  function follows these words; the code calls \<open>str.replace\<close>.\<close>

definition strip_prefix :: "string \<Rightarrow> string \<Rightarrow> string" where
  "strip_prefix p s = (if startswith p s then drop (length p) s else s)"


section \<open>Reading the outcome of a chat turn\<close>

text \<open>The memory of the profile after a turn, and the answers that \<open>app.py\<close> gives to a
  directive without the model.\<close>

definition memory_after :: "py_error + session_state \<Rightarrow> memory_dict option" where
  "memory_after r = (case r of Inr st' \<Rightarrow> map_option get_all (memory st') | Inl e \<Rightarrow> None)"

fun is_local_answer :: "ui_event \<Rightarrow> bool" where
  "is_local_answer (SuccessRemembered k v) = True"
| "is_local_answer ErrorUsage = True"
| "is_local_answer SuccessCleared = True"
| "is_local_answer (InfoMemory d) = True"
| "is_local_answer InfoNoMemory = True"
| "is_local_answer e = False"

section \<open>Example states\<close>

text \<open>A session before the script has run, with no file, and the session of profile
  \<open>alice\<close> after \<open>init_session\<close>, with the model loaded.\<close>

definition fresh_session :: session_state where
  "fresh_session =
     \<lparr>messages = None, memory = None, current_page = None, model_ready = False,
      memories_json = None, ui = [], model_calls = []\<rparr>"

definition alice_session :: session_state where
  "alice_session =
     \<lparr>messages = Some [], memory = Some \<lparr>profile_id = ''alice'', data = []\<rparr>,
      current_page = None, model_ready = True, memories_json = None, ui = [],
      model_calls = []\<rparr>"

section \<open>Facts about the string functions\<close>

lemma startswith_iff: "startswith p s \<longleftrightarrow> (\<exists>ss. s = p @ ss)"
  unfolding startswith_def
  by (metis append_eq_conv_conj append_take_drop_id)

lemma str_contains_iff: "str_contains sub s \<longleftrightarrow> (\<exists>ps ss. s = ps @ sub @ ss)"
proof (induction s)
  case Nil
  then show ?case by auto
next
  case (Cons c cs)
  show ?case
  proof
    assume "str_contains sub (c # cs)"
    then consider "startswith sub (c # cs)" | "str_contains sub cs" by auto
    then show "\<exists>ps ss. c # cs = ps @ sub @ ss"
    proof cases
      case 1
      then obtain ss where "c # cs = sub @ ss" using startswith_iff by blast
      then have "c # cs = [] @ sub @ ss" by simp
      then show ?thesis by blast
    next
      case 2
      then obtain ps ss where "cs = ps @ sub @ ss" using Cons.IH by blast
      then have "c # cs = (c # ps) @ sub @ ss" by simp
      then show ?thesis by blast
    qed
  next
    assume "\<exists>ps ss. c # cs = ps @ sub @ ss"
    then obtain ps ss where eq: "c # cs = ps @ sub @ ss" by blast
    show "str_contains sub (c # cs)"
    proof (cases ps)
      case Nil
      then have "startswith sub (c # cs)" using eq startswith_iff by auto
      then show ?thesis by simp
    next
      case (Cons p ps')
      then have "cs = ps' @ sub @ ss" using eq by simp
      then have "str_contains sub cs" using Cons.IH by blast
      then show ?thesis by simp
    qed
  qed
qed

lemma dropWhile_keeps:
  assumes "k \<noteq> []" "\<not> P (hd k)"
  shows "\<exists>ps'. dropWhile P (ps @ k @ ss) = ps' @ k @ ss"
proof (cases "\<forall>x\<in>set ps. P x")
  case True
  then have "dropWhile P (ps @ k @ ss) = dropWhile P (k @ ss)"
    by (simp add: dropWhile_append)
  also have "\<dots> = k @ ss" using assms by (cases k) auto
  finally have "dropWhile P (ps @ k @ ss) = [] @ k @ ss" by simp
  then show ?thesis by blast
next
  case False
  then have "dropWhile P (ps @ k @ ss) = dropWhile P ps @ k @ ss"
    by (auto simp add: dropWhile_append)
  then show ?thesis by blast
qed

lemma str_contains_strip:
  assumes "str_contains k s" "k \<noteq> []" "\<not> is_space (hd k)" "\<not> is_space (last k)"
  shows "str_contains k (strip s)"
proof -
  obtain ps ss where "s = ps @ k @ ss" using assms(1) str_contains_iff by blast
  then obtain ps' where 1: "dropWhile is_space s = ps' @ k @ ss"
    using dropWhile_keeps [of k is_space ps ss] assms(2,3) by blast
  have "rev k \<noteq> []" "\<not> is_space (hd (rev k))"
    using assms(2,4) by (simp_all add: hd_rev)
  then obtain q where "dropWhile is_space (rev ss @ rev k @ rev ps') = q @ rev k @ rev ps'"
    using dropWhile_keeps [of "rev k" is_space "rev ss" "rev ps'"] by blast
  then have "strip s = ps' @ k @ rev q"
    unfolding strip_def 1 by simp
  then show ?thesis using str_contains_iff by blast
qed

lemma str_contains_lower:
  assumes "str_contains k s"
  shows "str_contains (lower k) (lower s)"
proof -
  obtain ps ss where "s = ps @ k @ ss" using assms str_contains_iff by blast
  then have "lower s = lower ps @ lower k @ lower ss" by (simp add: lower_def)
  then show ?thesis using str_contains_iff by blast
qed

lemma first_command_split:
  "\<forall>c\<in>set pre. \<not> str_contains (fst c) text \<Longrightarrow> str_contains k text \<Longrightarrow>
   first_command (pre @ (k, h) # post) text = Some h"
  by (induction pre) auto

section \<open>The memory store\<close>

text \<open>A store that is the only writer of its file agrees with the file.\<close>

lemma reachable_in_sync: "reachable s \<Longrightarrow> load (snd s) = Inr (data (fst s))"
  by (induction rule: reachable.induct)
     (auto simp: new_store_def set_entry_def clear_def save_def load_def Let_def
           split: sum.splits option.splits file_text.splits)

lemma set_entry_get_all: "map_of (get_all (fst (set_entry m f k v))) k = Some v"
  by (simp add: set_entry_def get_all_def Let_def update_conv' split: option.splits)

lemma set_entry_restart:
  "\<exists>m'. restart (set_entry m f k v) = Inr m' \<and> map_of (get_all m') k = Some v"
  by (simp add: restart_def new_store_def load_def save_def set_entry_def get_all_def Let_def
        update_conv' split: option.splits)

lemma clear_get_all: "get_all (fst (clear m f)) = []"
  by (simp add: clear_def get_all_def Let_def update_conv' split: option.splits)

lemma clear_restart_saved:
  assumes "map_of (data m) (profile_id m) \<noteq> None \<or> load f = Inr (data m)"
  shows "\<exists>m'. restart (clear m f) = Inr m' \<and> get_all m' = []"
  using assms
  by (auto simp add: restart_def new_store_def load_def save_def clear_def get_all_def Let_def
        update_conv' split: option.splits file_text.splits)

text \<open>
  Claim C5, amended. For every state of a store and the file, every key \<open>k\<close> and value
  \<open>v\<close>: after \<open>set(k, v)\<close>, \<open>get_all()\<close> binds \<open>k\<close> to \<open>v\<close>, and so does a store made anew
  from the file, since \<open>set\<close> always saves; after \<open>clear()\<close>, \<open>get_all()\<close> is the empty
  mapping. A store made anew from the file after \<open>clear()\<close> answers the empty mapping
  when the store's copy held the profile, so that \<open>clear\<close> saved, or when the file
  agreed with the store's copy; and the file agrees with the copy of a store that has
  been its only writer since the store read it.
\<close>

theorem memory_store_round_trip:
  "map_of (get_all (fst (set_entry m f k v))) k = Some v
   \<and> (\<exists>m'. restart (set_entry m f k v) = Inr m' \<and> map_of (get_all m') k = Some v)
   \<and> get_all (fst (clear m f)) = []
   \<and> (map_of (data m) (profile_id m) \<noteq> None \<or> load f = Inr (data m)
        \<longrightarrow> (\<exists>m'. restart (clear m f) = Inr m' \<and> get_all m' = []))
   \<and> (reachable (m, f) \<longrightarrow> load f = Inr (data m))"
  using set_entry_get_all [of m f k v] set_entry_restart [of m f k v] clear_get_all [of m f]
    clear_restart_saved [of m f] reachable_in_sync [of "(m, f)"]
  by simp

theorem memory_store_round_trip_witness:
  "reachable (\<lparr>profile_id = ''alice'', data = [(''alice'', [(''k'', ''v'')])]\<rparr>,
              Some (Json [(''alice'', [(''k'', ''v'')])]))
   \<and> get_all \<lparr>profile_id = ''alice'', data = [(''alice'', [(''k'', ''v'')])]\<rparr> = [(''k'', ''v'')]
   \<and> map_of (data \<lparr>profile_id = ''alice'', data = [(''alice'', [(''k'', ''v'')])]\<rparr>) ''alice'' \<noteq> None
   \<and> load (Some (Json [(''alice'', [(''k'', ''v'')])])) = Inr [(''alice'', [(''k'', ''v'')])]
   \<and> (\<exists>m'. restart (clear \<lparr>profile_id = ''alice'', data = [(''alice'', [(''k'', ''v'')])]\<rparr>
                            (Some (Json [(''alice'', [(''k'', ''v'')])]))) = Inr m'
           \<and> get_all m' = [])
   \<and> snd (clear \<lparr>profile_id = ''alice'', data = [(''alice'', [(''k'', ''v'')])]\<rparr>
                  (Some (Json [(''alice'', [(''k'', ''v'')])])))
       = Some (Json [(''alice'', [])])
   \<and> map_of (data \<lparr>profile_id = ''bob'', data = [(''alice'', [(''k'', ''v'')])]\<rparr>) ''bob'' = None
   \<and> (\<exists>m'. restart (clear \<lparr>profile_id = ''bob'', data = [(''alice'', [(''k'', ''v'')])]\<rparr>
                            (Some (Json [(''alice'', [(''k'', ''v'')])]))) = Inr m'
           \<and> get_all m' = [])"
proof -
  have "new_store None ''alice'' = Inr \<lparr>profile_id = ''alice'', data = []\<rparr>"
    by (simp add: new_store_def load_def)
  then have "reachable (\<lparr>profile_id = ''alice'', data = []\<rparr>, None)"
    by (rule reachable.init)
  then have "reachable (set_entry \<lparr>profile_id = ''alice'', data = []\<rparr> None ''k'' ''v'')"
    by (rule reachable.step_set)
  moreover have "set_entry \<lparr>profile_id = ''alice'', data = []\<rparr> None ''k'' ''v''
                 = (\<lparr>profile_id = ''alice'', data = [(''alice'', [(''k'', ''v'')])]\<rparr>,
                    Some (Json [(''alice'', [(''k'', ''v'')])]))"
    by (simp add: set_entry_def save_def Let_def)
  ultimately have r: "reachable (\<lparr>profile_id = ''alice'', data = [(''alice'', [(''k'', ''v'')])]\<rparr>,
                                 Some (Json [(''alice'', [(''k'', ''v'')])]))"
    by simp
  have g: "get_all \<lparr>profile_id = ''alice'', data = [(''alice'', [(''k'', ''v'')])]\<rparr> = [(''k'', ''v'')]"
    by (simp add: get_all_def)
  have l: "load (Some (Json [(''alice'', [(''k'', ''v'')])])) = Inr [(''alice'', [(''k'', ''v'')])]"
    by (simp add: load_def)
  have s: "snd (clear \<lparr>profile_id = ''alice'', data = [(''alice'', [(''k'', ''v'')])]\<rparr>
                  (Some (Json [(''alice'', [(''k'', ''v'')])])))
           = Some (Json [(''alice'', [])])"
    by (simp add: clear_def save_def Let_def)
  have a: "\<exists>m'. restart (clear \<lparr>profile_id = ''alice'', data = [(''alice'', [(''k'', ''v'')])]\<rparr>
                            (Some (Json [(''alice'', [(''k'', ''v'')])]))) = Inr m'
           \<and> get_all m' = []"
    using memory_store_round_trip [of "\<lparr>profile_id = ''alice'', data = [(''alice'', [(''k'', ''v'')])]\<rparr>"
            "Some (Json [(''alice'', [(''k'', ''v'')])])" "''k''" "''v''"]
    by simp
  have b: "\<exists>m'. restart (clear \<lparr>profile_id = ''bob'', data = [(''alice'', [(''k'', ''v'')])]\<rparr>
                            (Some (Json [(''alice'', [(''k'', ''v'')])]))) = Inr m'
           \<and> get_all m' = []"
    using memory_store_round_trip [of "\<lparr>profile_id = ''bob'', data = [(''alice'', [(''k'', ''v'')])]\<rparr>"
            "Some (Json [(''alice'', [(''k'', ''v'')])])" "''k''" "''v''"] l
    by simp
  show ?thesis
    using r g l s a b by simp
qed

text \<open>
  The claim as stated fails with two sessions on one file: the first makes its store
  for profile \<open>default\<close> before there is a file, the second stores \<open>k\<close> for the same
  profile, and the first then clears. Its copy does not hold the profile, so \<open>clear\<close>
  writes nothing, and a store made anew from the file still answers \<open>k\<close>.
\<close>

theorem clear_restart_counterexample:
  "new_store None ''default'' = Inr \<lparr>profile_id = ''default'', data = []\<rparr>
   \<and> snd (set_entry \<lparr>profile_id = ''default'', data = []\<rparr> None ''k'' ''v'')
       = Some (Json [(''default'', [(''k'', ''v'')])])
   \<and> get_all (fst (clear \<lparr>profile_id = ''default'', data = []\<rparr>
                          (Some (Json [(''default'', [(''k'', ''v'')])])))) = []
   \<and> restart (clear \<lparr>profile_id = ''default'', data = []\<rparr>
                     (Some (Json [(''default'', [(''k'', ''v'')])])))
       = Inr \<lparr>profile_id = ''default'', data = [(''default'', [(''k'', ''v'')])]\<rparr>
   \<and> get_all \<lparr>profile_id = ''default'', data = [(''default'', [(''k'', ''v'')])]\<rparr> \<noteq> []"
  by (simp add: new_store_def load_def set_entry_def save_def clear_def get_all_def restart_def
        Let_def)

text \<open>
  Claim C8. When the file is absent, \<open>_load\<close> returns the empty mapping and the
  constructor gives a store with no data. When the file is there and its content is
  malformed, \<open>_load\<close> raises the decoder's error, and so do the constructor and the
  script that makes the store: nothing replaces the error by an empty state.
\<close>

theorem load_absent_or_malformed:
  "load None = Inr []
   \<and> new_store None p = Inr \<lparr>profile_id = p, data = []\<rparr>
   \<and> load (Some Malformed) = Inl JSONDecodeError
   \<and> new_store (Some Malformed) p = Inl JSONDecodeError
   \<and> init_session p (st\<lparr>memory := None, memories_json := Some Malformed\<rparr>) = Inl JSONDecodeError"
  by (simp add: load_def new_store_def init_session_def)

text \<open>
  Claim C9. \<open>set(k, v)\<close> on the store of profile \<open>p\<close> leaves the mapping of every other
  profile \<open>q\<close> as it was, leaves the binding of every other key \<open>k'\<close> of profile \<open>p\<close> as it
  was, keeps the profile of the store, and writes to the file the mapping it now holds.
\<close>

theorem set_entry_frame:
  "(q \<noteq> profile_id m \<longrightarrow> map_of (data (fst (set_entry m f k v))) q = map_of (data m) q)
   \<and> (k' \<noteq> k \<longrightarrow> map_of (get_all (fst (set_entry m f k v))) k' = map_of (get_all m) k')
   \<and> profile_id (fst (set_entry m f k v)) = profile_id m
   \<and> snd (set_entry m f k v) = Some (Json (data (fst (set_entry m f k v))))"
  by (simp add: set_entry_def get_all_def save_def Let_def update_conv' split: option.splits)

theorem set_entry_frame_witness:
  "''bob'' \<noteq> profile_id \<lparr>profile_id = ''alice'', data = [(''bob'', [(''rent'', ''900'')])]\<rparr>
   \<and> map_of (data (fst (set_entry \<lparr>profile_id = ''alice'', data = [(''bob'', [(''rent'', ''900'')])]\<rparr>
                          None ''budget'' ''3000''))) ''bob''
       = Some [(''rent'', ''900'')]
   \<and> ''goal'' \<noteq> ''budget''
   \<and> map_of (get_all (fst (set_entry \<lparr>profile_id = ''alice'', data = [(''bob'', [(''rent'', ''900'')])]\<rparr>
                          None ''budget'' ''3000''))) ''goal''
       = None"
proof -
  have "map_of (get_all \<lparr>profile_id = ''alice'', data = [(''bob'', [(''rent'', ''900'')])]\<rparr>) ''goal''
        = None"
    by (simp add: get_all_def)
  then show ?thesis
    using set_entry_frame [of "''bob''" "\<lparr>profile_id = ''alice'', data = [(''bob'', [(''rent'', ''900'')])]\<rparr>"
                              None "''budget''" "''3000''" "''goal''"]
    by simp
qed

section \<open>The voice commands\<close>

lemma commands_keywords:
  assumes "(k, h) \<in> set commands"
  shows "lower k = k \<and> k \<noteq> [] \<and> \<not> is_space (hd k) \<and> \<not> is_space (last k)"
  using assms unfolding commands_def
  by (auto simp: lower_def lower_char_def is_space_def)

lemma first_command_wdyr: "first_command commands ''what do you remember'' = Some remember_info"
  by (simp add: commands_def startswith_def)

lemma no_trailing_content: "re_search match_remember ''what do you remember'' = None"
  by code_simp

lemma first_command_example: "first_command commands ''remember help me budget'' = Some show_help"
  by (simp add: commands_def startswith_def)

lemma normal_example: "strip (lower ''remember help me budget'') = ''remember help me budget''"
  by code_simp

text \<open>
  Claim C3. The utterance is lowercased and trimmed, and the registry is gone through in
  the order it is written: when a keyword \<open>k\<close> of the registry is contained in the
  utterance and no keyword before it in the registry is, the handler of \<open>k\<close> is called,
  wherever the keywords stand in the utterance. A keyword contained in the utterance as
  it was given is contained in it after lowercasing and trimming. For
  \<open>remember help me budget\<close> the handler is that of \<open>help\<close>, the first entry of the
  registry.
\<close>

theorem registry_order_wins:
  "(commands = pre @ (k, h) # post \<and> str_contains k (strip (lower text))
      \<and> (\<forall>c \<in> set pre. \<not> str_contains (fst c) (strip (lower text)))
     \<longrightarrow> process_voice_command st text
           = (Some (fst (h st (strip (lower text)))), snd (h st (strip (lower text)))))
   \<and> ((k, h) \<in> set commands \<and> str_contains k text \<longrightarrow> str_contains k (strip (lower text)))
   \<and> process_voice_command st ''remember help me budget'' = (Some HelpText, st)"
proof (intro conjI impI)
  assume a: "commands = pre @ (k, h) # post \<and> str_contains k (strip (lower text))
      \<and> (\<forall>c \<in> set pre. \<not> str_contains (fst c) (strip (lower text)))"
  then have "first_command commands (strip (lower text)) = Some h"
    using first_command_split [of pre "strip (lower text)" k h post] by simp
  then show "process_voice_command st text
           = (Some (fst (h st (strip (lower text)))), snd (h st (strip (lower text))))"
    by (simp add: process_voice_command_def Let_def case_prod_beta)
next
  assume a: "(k, h) \<in> set commands \<and> str_contains k text"
  then have kw: "lower k = k" "k \<noteq> []" "\<not> is_space (hd k)" "\<not> is_space (last k)"
    using commands_keywords [of k h] by simp_all
  have "str_contains k (lower text)"
    using str_contains_lower [of k "text"] a kw(1) by simp
  then show "str_contains k (strip (lower text))"
    using str_contains_strip kw by blast
next
  show "process_voice_command st ''remember help me budget'' = (Some HelpText, st)"
    by (simp add: process_voice_command_def normal_example first_command_example show_help_def)
qed

theorem registry_order_wins_witness:
  "commands = [(''help'', show_help), (''clear'', clear_chat)] @ (''remember'', remember_info) # drop 3 commands
   \<and> str_contains ''remember'' (strip (lower ''Please remember my BUDGET''))
   \<and> \<not> str_contains ''help'' (strip (lower ''Please remember my BUDGET''))
   \<and> \<not> str_contains ''clear'' (strip (lower ''Please remember my BUDGET''))
   \<and> str_contains ''budget'' (strip (lower ''Please remember my BUDGET''))
   \<and> (''remember'', remember_info) \<in> set commands
   \<and> str_contains ''remember'' ''Please remember my BUDGET''
   \<and> process_voice_command fresh_session ''Please remember my BUDGET''
       = (Some (Remembered ''my budget''), fresh_session)"
proof -
  have c: "commands = [(''help'', show_help), (''clear'', clear_chat)] @ (''remember'', remember_info) # drop 3 commands"
    by (simp add: commands_def)
  have n: "strip (lower ''Please remember my BUDGET'') = ''please remember my budget''"
    by code_simp
  have h1: "str_contains ''remember'' ''please remember my budget''"
    by code_simp
  have h2: "\<forall>c \<in> set [(''help'', show_help), (''clear'', clear_chat)].
              \<not> str_contains (fst c) ''please remember my budget''"
    by (simp add: startswith_def)
  have h3: "(''remember'', remember_info) \<in> set commands"
    by (simp add: commands_def)
  have h4: "str_contains ''remember'' ''Please remember my BUDGET''"
    by code_simp
  have h5: "str_contains ''budget'' ''please remember my budget''"
    by code_simp
  have g: "re_search match_remember ''please remember my budget'' = Some ''my budget''"
    by code_simp
  have s: "strip ''my budget'' = ''my budget''"
    by code_simp
  have r: "remember_info fresh_session ''please remember my budget''
           = (Remembered ''my budget'', fresh_session)"
    unfolding remember_info_def g by (simp add: s fresh_session_def)
  have "process_voice_command fresh_session ''Please remember my BUDGET''
        = (Some (Remembered ''my budget''), fresh_session)"
    using registry_order_wins [of "[(''help'', show_help), (''clear'', clear_chat)]"
            "''remember''" remember_info "drop 3 commands" "''Please remember my BUDGET''"
            fresh_session]
          c h1 h2
    unfolding n r by simp
  then show ?thesis
    using c h1 h2 h3 h4 h5 unfolding n by simp
qed

text \<open>
  Claim C10. For an utterance that is \<open>what do you remember\<close> once lowercased and trimmed,
  \<open>process_voice_command\<close> answers \<open>Please specify what to remember\<close> and changes nothing:
  the registry reaches \<open>remember\<close> before \<open>what do you remember\<close>, the pattern of the
  \<open>remember\<close> handler finds nothing behind the word, and the answer is none of those of
  the memory display.
\<close>

theorem what_do_you_remember_asks_what:
  assumes "strip (lower text) = ''what do you remember''"
  shows "process_voice_command st text = (Some PleaseSpecify, st)
       \<and> first_command commands (strip (lower text)) = Some remember_info
       \<and> re_search match_remember (strip (lower text)) = None
       \<and> fst (show_memory st (strip (lower text))) \<noteq> PleaseSpecify"
proof -
  have "remember_info st ''what do you remember'' = (PleaseSpecify, st)"
    unfolding remember_info_def no_trailing_content by simp
  then have "process_voice_command st text = (Some PleaseSpecify, st)"
    by (simp add: process_voice_command_def assms first_command_wdyr)
  moreover have "fst (show_memory st (strip (lower text))) \<noteq> PleaseSpecify"
    by (simp add: show_memory_def Let_def split: option.splits)
  ultimately show ?thesis
    unfolding assms using first_command_wdyr no_trailing_content by blast
qed


lemma normal_what_do_you_remember: "strip (lower '' What do you REMEMBER  '') = ''what do you remember''" by code_simp

theorem what_do_you_remember_asks_what_witness:
  "strip (lower '' What do you REMEMBER  '') = ''what do you remember''
   \<and> process_voice_command alice_session '' What do you REMEMBER  '' = (Some PleaseSpecify, alice_session)"
  using what_do_you_remember_asks_what [OF normal_what_do_you_remember, of alice_session] normal_what_do_you_remember by simp

section \<open>The tokens\<close>

subsection \<open>Where the token is taken from\<close>

lemma str_replace_absent:
  "old \<noteq> [] \<Longrightarrow> \<not> str_contains old s \<Longrightarrow> str_replace old new s = s"
proof (induction s)
  case Nil
  then show ?case by (simp add: str_replace.simps)
next
  case (Cons c cs)
  then have "\<not> startswith old (c # cs)" "\<not> str_contains old cs" by auto
  then show ?case
    using Cons by (subst str_replace.simps) simp
qed

lemma str_replace_prefix:
  assumes "old \<noteq> []" "\<not> str_contains old r"
  shows "str_replace old [] (old @ r) = r"
proof -
  have "startswith old (old @ r)" by (simp add: startswith_def)
  moreover have "old @ r \<noteq> []" using assms(1) by simp
  ultimately have "str_replace old [] (old @ r) = str_replace old [] (drop (length old) (old @ r))"
    using assms(1) by (subst str_replace.simps) simp
  then show ?thesis using str_replace_absent [OF assms] by simp
qed

lemma split_ws_nonempty: "w \<in> set (split_ws s) \<Longrightarrow> w \<noteq> []"
proof (induction s arbitrary: w rule: split_ws.induct)
  case (1 s)
  let ?r = "dropWhile is_space s"
  show ?case
  proof (cases "?r = []")
    case True
    then have "split_ws s = []" by (subst split_ws.simps) (simp add: Let_def)
    with 1 show ?thesis by simp
  next
    case False
    then have eq: "split_ws s = takeWhile (\<lambda>c. \<not> is_space c) ?r # split_ws (dropWhile (\<lambda>c. \<not> is_space c) ?r)"
      by (subst split_ws.simps) (simp add: Let_def)
    have "\<not> is_space (hd ?r)" using False hd_dropWhile by blast
    then have "takeWhile (\<lambda>c. \<not> is_space c) ?r \<noteq> []"
      using False by (cases ?r) auto
    then show ?thesis
      using 1 eq False by auto
  qed
qed

lemma cookie_step:
  "\<not> truthy token \<Longrightarrow> c \<noteq> [] \<Longrightarrow>
   token_from_cookie token (Some c) = Some (str_replace ''Bearer '' [] c)"
  by (simp add: token_from_cookie_def truthy_def)

lemma header_skipped:
  "truthy t \<Longrightarrow> token_from_header t authorization = Inr t"
  by (simp add: token_from_header_def)

lemma header_step:
  "\<not> truthy t \<Longrightarrow>
   token_from_header t authorization =
     (case authorization of
        None \<Rightarrow> Inr t
      | Some h \<Rightarrow>
          (case split_ws (strip h) of
             [scheme, tok] \<Rightarrow>
               if lower scheme = ''bearer'' then Inr (Some tok) else Inl Invalid_authentication_scheme_400
           | _ \<Rightarrow> Inl Not_authenticated_401))"
  by (auto simp add: token_from_header_def split: option.splits list.splits)

lemma replace_is_strip_prefix:
  assumes "\<not> str_contains ''Bearer '' (strip_prefix ''Bearer '' c)"
  shows "str_replace ''Bearer '' [] c = strip_prefix ''Bearer '' c"
proof (cases "startswith ''Bearer '' c")
  case True
  then obtain r where c: "c = ''Bearer '' @ r" using startswith_iff by blast
  then have "strip_prefix ''Bearer '' c = r"
    by (simp add: strip_prefix_def startswith_def)
  then show ?thesis
    using assms c str_replace_prefix [of "''Bearer ''" r] by simp
next
  case False
  then have "strip_prefix ''Bearer '' c = c" by (simp add: strip_prefix_def)
  then show ?thesis
    using assms str_replace_absent [of "''Bearer ''" c "[]"] by simp
qed

lemma header_decides:
  assumes a: "\<not> truthy (token_from_cookie token access_token)"
  shows "extract_token token access_token authorization =
            (case authorization of
               None \<Rightarrow> Inl Not_authenticated_401
             | Some h \<Rightarrow>
                 (case split_ws (strip h) of
                    [scheme, tok] \<Rightarrow>
                      if lower scheme = ''bearer'' then Inr tok
                      else Inl Invalid_authentication_scheme_400
                  | _ \<Rightarrow> Inl Not_authenticated_401))"
proof (cases authorization)
  case None
  then have "token_from_header (token_from_cookie token access_token) authorization
             = Inr (token_from_cookie token access_token)"
    by (simp add: token_from_header_def)
  then show ?thesis
    using a None by (auto simp add: extract_token_def truthy_def split: option.splits)
next
  case (Some h)
  show ?thesis
  proof (cases "\<exists>scheme tok. split_ws (strip h) = [scheme, tok]")
    case True
    then obtain scheme tok where st: "split_ws (strip h) = [scheme, tok]" by blast
    then have "tok \<in> set (split_ws (strip h))" by simp
    then have "tok \<noteq> []" using split_ws_nonempty by blast
    then show ?thesis
      using a Some st by (simp add: extract_token_def header_step)
  next
    case False
    then have "token_from_header (token_from_cookie token access_token) authorization
               = Inl Not_authenticated_401"
      using a Some by (auto simp add: header_step split: list.splits)
    then show ?thesis
      using Some False by (auto simp add: extract_token_def split: list.splits)
  qed
qed

lemma only_the_prefix: "str_replace ''Bearer '' [] ''Bearer '' = []"
  by code_simp

text \<open>
  Claim C1, amended. A token found by the transport layer that is not empty is used,
  whatever the cookie and the header hold. Otherwise a cookie that is not empty is used
  without its leading \<open>Bearer \<close>, when it has one, provided something is left of it; this
  is stated for a cookie that holds no \<open>Bearer \<close> behind that. Otherwise, with no
  cookie, an empty one or one that is \<open>Bearer \<close> alone, the header decides: two fields
  separated by whitespace with the scheme \<open>bearer\<close> in any case give the second field
  as the token, two fields with another scheme are rejected with status 400, and no
  header or any other number of fields is rejected as unauthenticated with status 401.
\<close>

theorem extract_token_precedence:
  "(t \<noteq> [] \<longrightarrow> extract_token (Some t) access_token authorization = Inr t)
   \<and> (\<not> truthy token \<and> c \<noteq> [] \<and> strip_prefix ''Bearer '' c \<noteq> []
        \<and> \<not> str_contains ''Bearer '' (strip_prefix ''Bearer '' c)
        \<longrightarrow> extract_token token (Some c) authorization = Inr (strip_prefix ''Bearer '' c))
   \<and> (\<not> truthy token
        \<and> (access_token = None \<or> access_token = Some [] \<or> access_token = Some ''Bearer '')
        \<longrightarrow> extract_token token access_token authorization =
            (case authorization of
               None \<Rightarrow> Inl Not_authenticated_401
             | Some h \<Rightarrow>
                 (case split_ws (strip h) of
                    [scheme, tok] \<Rightarrow>
                      if lower scheme = ''bearer'' then Inr tok
                      else Inl Invalid_authentication_scheme_400
                  | _ \<Rightarrow> Inl Not_authenticated_401)))"
proof (intro conjI impI)
  assume "t \<noteq> []"
  then have "truthy (Some t)" by (simp add: truthy_def)
  then have "token_from_cookie (Some t) access_token = Some t"
    by (simp add: token_from_cookie_def)
  then show "extract_token (Some t) access_token authorization = Inr t"
    using \<open>truthy (Some t)\<close> \<open>t \<noteq> []\<close> by (simp add: extract_token_def header_skipped)
next
  assume a: "\<not> truthy token \<and> c \<noteq> [] \<and> strip_prefix ''Bearer '' c \<noteq> []
        \<and> \<not> str_contains ''Bearer '' (strip_prefix ''Bearer '' c)"
  then have rep: "str_replace ''Bearer '' [] c = strip_prefix ''Bearer '' c"
    using replace_is_strip_prefix by blast
  have "token_from_cookie token (Some c) = Some (str_replace ''Bearer '' [] c)"
    using a cookie_step by blast
  then have "token_from_cookie token (Some c) = Some (strip_prefix ''Bearer '' c)"
    using rep by simp
  moreover have "truthy (Some (strip_prefix ''Bearer '' c))"
    using a by (simp add: truthy_def)
  ultimately show "extract_token token (Some c) authorization = Inr (strip_prefix ''Bearer '' c)"
    using a by (simp add: extract_token_def header_skipped)
next
  assume a: "\<not> truthy token
        \<and> (access_token = None \<or> access_token = Some [] \<or> access_token = Some ''Bearer '')"
  then have "\<not> truthy (token_from_cookie token access_token)"
    using only_the_prefix by (auto simp add: token_from_cookie_def truthy_def)
  then show "extract_token token access_token authorization =
            (case authorization of
               None \<Rightarrow> Inl Not_authenticated_401
             | Some h \<Rightarrow>
                 (case split_ws (strip h) of
                    [scheme, tok] \<Rightarrow>
                      if lower scheme = ''bearer'' then Inr tok
                      else Inl Invalid_authentication_scheme_400
                  | _ \<Rightarrow> Inl Not_authenticated_401))"
    by (rule header_decides)
qed

text \<open>
  The claim as stated fails for a request whose only credential is a header with
  another scheme: the transport layer finds no bearer token, there is no cookie, and
  the code rejects the request with status 400, not as unauthenticated.
\<close>

theorem other_scheme_counterexample:
  "extract_token None None (Some ''Basic abc'') = Inl Invalid_authentication_scheme_400
   \<and> extract_token None None (Some ''Basic abc'') \<noteq> Inl Not_authenticated_401"
  by code_simp

text \<open>Three requests: a bearer header beside a cookie, a cookie alone, and a header that
  separates scheme and token by a TAB, in which the transport layer finds no token.\<close>

theorem extract_token_precedence_witness:
  "''tok1'' \<noteq> []
   \<and> extract_token (Some ''tok1'') (Some ''Bearer cookie'') (Some ''Bearer tok1'') = Inr ''tok1''
   \<and> \<not> truthy None \<and> ''Bearer abc'' \<noteq> [] \<and> strip_prefix ''Bearer '' ''Bearer abc'' \<noteq> []
   \<and> \<not> str_contains ''Bearer '' (strip_prefix ''Bearer '' ''Bearer abc'')
   \<and> extract_token None (Some ''Bearer abc'') None = Inr ''abc''
   \<and> extract_token None None (Some (''Bearer'' @ [CHR 0x09] @ ''xyz'')) = Inr ''xyz''
   \<and> extract_token None None None = Inl Not_authenticated_401"
proof -
  have e1: "strip_prefix ''Bearer '' ''Bearer abc'' = ''abc''" by code_simp
  have e2: "\<not> str_contains ''Bearer '' ''abc''" by code_simp
  have e3: "split_ws (strip (''Bearer'' @ [CHR 0x09] @ ''xyz'')) = [''Bearer'', ''xyz'']"
    by code_simp
  have e4: "lower ''Bearer'' = ''bearer''" by code_simp
  have e5: "\<not> truthy None" by (simp add: truthy_def)
  have a: "extract_token (Some ''tok1'') (Some ''Bearer cookie'') (Some ''Bearer tok1'') = Inr ''tok1''"
    using extract_token_precedence [where t = "''tok1''" and access_token = "Some ''Bearer cookie''"
            and authorization = "Some ''Bearer tok1''" and token = None and c = "''Bearer abc''"]
    by simp
  have b: "extract_token None (Some ''Bearer abc'') None = Inr ''abc''"
    using extract_token_precedence [where t = "''tok1''" and access_token = "Some ''Bearer cookie''"
            and authorization = None and token = None and c = "''Bearer abc''"] e1 e2 e5
    by simp
  have c: "extract_token None None (Some (''Bearer'' @ [CHR 0x09] @ ''xyz'')) = Inr ''xyz''"
    using extract_token_precedence [where t = "''tok1''" and access_token = None
            and authorization = "Some (''Bearer'' @ [CHR 0x09] @ ''xyz'')" and token = None
            and c = "''Bearer abc''"] e5
    by (simp add: e3 [simplified] e4)
  have d: "extract_token None None None = Inl Not_authenticated_401"
    using extract_token_precedence [where t = "''tok1''" and access_token = None
            and authorization = None and token = None and c = "''Bearer abc''"] e5
    by simp
  show ?thesis
    using a b c d e1 e2 e5 by simp
qed

subsection \<open>The expiry of a token\<close>

lemma datetime_add_ok:
  "0 \<le> t + d \<Longrightarrow> t + d \<le> datetime_max \<Longrightarrow> datetime_add t d = Inr (t + d)"
  by (simp add: datetime_add_def)

text \<open>
  Claim C2, amended. A token issued without \<open>expires_delta\<close> carries the expiry of the
  issuance time plus 15 minutes; a token issued with an \<open>expires_delta\<close> other than
  zero carries the issuance time plus that delta; the signup and login routes pass
  \<open>ACCESS_TOKEN_EXPIRE_MINUTES\<close>, so their tokens expire 30 minutes after issuance. All
  of this holds while the expiry is a date before the end of year 9999.
\<close>

theorem token_expiry:
  "(0 \<le> utcnow + minutes 15 \<and> utcnow + minutes 15 \<le> datetime_max
      \<longrightarrow> (\<exists>c. to_encode utcnow data_in None = Inr c
               \<and> map_of c ''exp'' = Some (TimeClaim (utcnow + minutes 15))
               \<and> create_access_token jwt_encode utcnow data_in None = Inr (jwt_encode c)))
   \<and> (d \<noteq> 0 \<and> 0 \<le> utcnow + d \<and> utcnow + d \<le> datetime_max
      \<longrightarrow> (\<exists>c. to_encode utcnow data_in (Some d) = Inr c
               \<and> map_of c ''exp'' = Some (TimeClaim (utcnow + d))
               \<and> create_access_token jwt_encode utcnow data_in (Some d) = Inr (jwt_encode c)))
   \<and> (0 \<le> utcnow + minutes 30 \<and> utcnow + minutes 30 \<le> datetime_max
      \<longrightarrow> route_token jwt_encode utcnow email
            = Inr (jwt_encode [(''sub'', StrClaim email),
                               (''exp'', TimeClaim (utcnow + minutes 30))]))"
proof (intro conjI impI)
  assume "0 \<le> utcnow + minutes 15 \<and> utcnow + minutes 15 \<le> datetime_max"
  then have "to_encode utcnow data_in None
             = Inr (AList.update ''exp'' (TimeClaim (utcnow + minutes 15)) data_in)"
    by (simp add: to_encode_def datetime_add_ok)
  then show "\<exists>c. to_encode utcnow data_in None = Inr c
               \<and> map_of c ''exp'' = Some (TimeClaim (utcnow + minutes 15))
               \<and> create_access_token jwt_encode utcnow data_in None = Inr (jwt_encode c)"
    by (simp add: create_access_token_def update_conv')
next
  assume "d \<noteq> 0 \<and> 0 \<le> utcnow + d \<and> utcnow + d \<le> datetime_max"
  then have "to_encode utcnow data_in (Some d)
             = Inr (AList.update ''exp'' (TimeClaim (utcnow + d)) data_in)"
    by (simp add: to_encode_def datetime_add_ok)
  then show "\<exists>c. to_encode utcnow data_in (Some d) = Inr c
               \<and> map_of c ''exp'' = Some (TimeClaim (utcnow + d))
               \<and> create_access_token jwt_encode utcnow data_in (Some d) = Inr (jwt_encode c)"
    by (simp add: create_access_token_def update_conv')
next
  assume "0 \<le> utcnow + minutes 30 \<and> utcnow + minutes 30 \<le> datetime_max"
  moreover have "minutes 30 \<noteq> 0" by (simp add: minutes_def)
  ultimately show "route_token jwt_encode utcnow email
            = Inr (jwt_encode [(''sub'', StrClaim email),
                               (''exp'', TimeClaim (utcnow + minutes 30))])"
    by (simp add: route_token_def create_access_token_def to_encode_def datetime_add_ok
          ACCESS_TOKEN_EXPIRE_MINUTES_def)
qed

theorem token_expiry_witness:
  "0 \<le> 63902822400000000 + minutes 15 \<and> 63902822400000000 + minutes 15 \<le> datetime_max
   \<and> to_encode 63902822400000000 [(''sub'', StrClaim ''a@b.c'')] None
       = Inr [(''sub'', StrClaim ''a@b.c''), (''exp'', TimeClaim 63902823300000000)]
   \<and> minutes 45 \<noteq> 0
   \<and> 0 \<le> 63902822400000000 + minutes 45 \<and> 63902822400000000 + minutes 45 \<le> datetime_max
   \<and> to_encode 63902822400000000 [(''sub'', StrClaim ''a@b.c'')] (Some (minutes 45))
       = Inr [(''sub'', StrClaim ''a@b.c''), (''exp'', TimeClaim 63902825100000000)]
   \<and> 0 \<le> 63902822400000000 + minutes 30 \<and> 63902822400000000 + minutes 30 \<le> datetime_max
   \<and> route_token (\<lambda>c. ''token'') 63902822400000000 ''a@b.c''
       = Inr ((\<lambda>c. ''token'') [(''sub'', StrClaim ''a@b.c''), (''exp'', TimeClaim 63902824200000000)])"
proof -
  have r: "0 \<le> 63902822400000000 + minutes 15 \<and> 63902822400000000 + minutes 15 \<le> datetime_max"
          "minutes 45 \<noteq> 0 \<and> 0 \<le> 63902822400000000 + minutes 45
            \<and> 63902822400000000 + minutes 45 \<le> datetime_max"
          "0 \<le> 63902822400000000 + minutes 30 \<and> 63902822400000000 + minutes 30 \<le> datetime_max"
    by (simp_all add: minutes_def datetime_max_def)
  have a: "to_encode 63902822400000000 [(''sub'', StrClaim ''a@b.c'')] None
       = Inr [(''sub'', StrClaim ''a@b.c''), (''exp'', TimeClaim 63902823300000000)]"
    by (simp add: to_encode_def datetime_add_def minutes_def datetime_max_def)
  have b: "to_encode 63902822400000000 [(''sub'', StrClaim ''a@b.c'')] (Some (minutes 45))
       = Inr [(''sub'', StrClaim ''a@b.c''), (''exp'', TimeClaim 63902825100000000)]"
    by (simp add: to_encode_def datetime_add_def minutes_def datetime_max_def)
  have c: "route_token (\<lambda>c. ''token'') 63902822400000000 ''a@b.c''
       = Inr ((\<lambda>c. ''token'') [(''sub'', StrClaim ''a@b.c''), (''exp'', TimeClaim (63902822400000000 + minutes 30))])"
    using token_expiry [where utcnow = 63902822400000000 and d = "minutes 45"
            and data_in = "[(''sub'', StrClaim ''a@b.c'')]" and jwt_encode = "\<lambda>c. ''token''"
            and email = "''a@b.c''"] r(3)
    by blast
  have m: "63902822400000000 + minutes 30 = 63902824200000000" by (simp add: minutes_def)
  show ?thesis
    using r a b c unfolding m by simp
qed

text \<open>
  The claim as stated fails without \<open>expires_delta\<close>, where the expiry is 15 and not 30
  minutes after issuance, and for an \<open>expires_delta\<close> of zero.
\<close>

theorem default_ttl_counterexample:
  "to_encode 63902822400000000 [(''sub'', StrClaim ''a@b.c'')] None
       = Inr [(''sub'', StrClaim ''a@b.c''), (''exp'', TimeClaim (63902822400000000 + minutes 15))]
   \<and> to_encode 63902822400000000 [(''sub'', StrClaim ''a@b.c'')] None
       \<noteq> Inr [(''sub'', StrClaim ''a@b.c''),
               (''exp'', TimeClaim (63902822400000000 + minutes ACCESS_TOKEN_EXPIRE_MINUTES))]
   \<and> to_encode 63902822400000000 [(''sub'', StrClaim ''a@b.c'')] (Some 0)
       \<noteq> Inr [(''sub'', StrClaim ''a@b.c''), (''exp'', TimeClaim (63902822400000000 + 0))]"
  by (simp add: to_encode_def datetime_add_def minutes_def datetime_max_def
        ACCESS_TOKEN_EXPIRE_MINUTES_def)

section \<open>The chat turn\<close>

lemma split_on_nonempty: "split_on sep s \<noteq> []"
  by (induction s) (auto split: list.splits)

lemma length_split_on: "length (split_on sep s) = count_list s sep + 1"
  by (induction s) (auto simp: split_on_nonempty split: list.splits)

lemma split_on_absent: "count_list s sep = 0 \<Longrightarrow> split_on sep s = [s]"
  by (induction s) (auto split: if_splits)

lemma split_on_once:
  "count_list s sep = 1 \<Longrightarrow>
   \<exists>key val. s = key @ sep # val \<and> split_on sep s = [key, val]"
proof (induction s)
  case Nil
  then show ?case by simp
next
  case (Cons c cs)
  show ?case
  proof (cases "c = sep")
    case True
    then have "count_list cs sep = 0" using Cons.prems by simp
    then have "split_on sep (c # cs) = [[], cs]" using True split_on_absent by simp
    moreover have "c # cs = [] @ sep # cs" using True by simp
    ultimately show ?thesis by blast
  next
    case False
    then have "count_list cs sep = 1" using Cons.prems by simp
    then obtain key val where kv: "cs = key @ sep # val" "split_on sep cs = [key, val]"
      using Cons.IH by blast
    then have "c # cs = (c # key) @ sep # val" "split_on sep (c # cs) = [c # key, val]"
      using False by simp_all
    then show ?thesis by blast
  qed
qed

lemma count_list_append: "count_list (xs @ ys) c = count_list xs c + count_list ys c"
  by (induction xs) auto

lemma count_str_replace:
  "old \<noteq> [] \<Longrightarrow> c \<notin> set old \<Longrightarrow> count_list (str_replace old [] s) c = count_list s c"
proof (induction old "[] :: string" s rule: str_replace.induct)
  case (1 old s)
  show ?case
  proof (cases "s = []")
    case True
    then show ?thesis using 1 by (subst str_replace.simps) simp
  next
    case False
    show ?thesis
    proof (cases "startswith old s")
      case True
      then have s: "s = old @ drop (length old) s"
        by (metis append_take_drop_id startswith_def)
      have "count_list old c = 0" using 1(4) by (simp add: count_list_0_iff)
      then have "count_list s c = count_list (drop (length old) s) c"
        using s count_list_append [of old "drop (length old) s" c] by simp
      moreover have "str_replace old [] s = str_replace old [] (drop (length old) s)"
        using True False 1(3) by (subst str_replace.simps) simp
      ultimately show ?thesis using 1(1) [OF 1(3) False True 1(3) 1(4)] by simp
    next
      case nsw: False
      have "str_replace old [] s = hd s # str_replace old [] (tl s)"
        using nsw False 1(3) by (subst str_replace.simps) simp
      moreover have "count_list s c = count_list [hd s] c + count_list (tl s) c"
        using False by (cases s) auto
      ultimately show ?thesis using 1(2) [OF 1(3) False nsw 1(3) 1(4)] by simp
    qed
  qed
qed


lemma startswith_nonempty: "startswith ''/remember '' p \<Longrightarrow> p \<noteq> []"
  by (auto simp: startswith_def)

lemma directive_nonempty:
  "is_remember p \<or> is_clear p \<or> is_what_do_you_remember p \<Longrightarrow> p \<noteq> []"
  by (auto simp: is_remember_def is_clear_def is_what_do_you_remember_def startswith_def
        lower_def strip_def)

lemma remember_usage_error:
  assumes "messages st = Some msgs" "memory st = Some mem" "startswith ''/remember '' prompt"
      and "count_list (str_replace ''/remember '' [] prompt) CHR ''='' \<noteq> 1"
  shows "\<exists>st'. chat_turn chat persona st prompt = Inr st' \<and> memory st' = memory st
           \<and> memories_json st' = memories_json st \<and> last (ui st') = ErrorUsage
           \<and> model_calls st' = model_calls st"
proof -
  have "length (split_on CHR ''='' (str_replace ''/remember '' [] prompt)) \<noteq> 2"
    using assms(4) by (simp add: length_split_on)
  then show ?thesis
    using assms(1-3) startswith_nonempty [OF assms(3)] by (simp add: chat_turn_def Let_def)
qed

lemma remember_stores:
  assumes "messages st = Some msgs" "memory st = Some mem" "startswith ''/remember '' prompt"
      and "count_list (str_replace ''/remember '' [] prompt) CHR ''='' = 1"
  shows "\<exists>key val st'. str_replace ''/remember '' [] prompt = key @ ''='' @ val
           \<and> chat_turn chat persona st prompt = Inr st'
           \<and> memory st' = Some (fst (set_entry mem (memories_json st) (strip key) (strip val)))
           \<and> memories_json st' = snd (set_entry mem (memories_json st) (strip key) (strip val))
           \<and> last (ui st') = SuccessRemembered (strip key) (strip val)
           \<and> model_calls st' = model_calls st"
proof -
  obtain key val where kv: "str_replace ''/remember '' [] prompt = key @ CHR ''='' # val"
      "split_on CHR ''='' (str_replace ''/remember '' [] prompt) = [key, val]"
    using split_on_once [OF assms(4)] by blast
  have "\<exists>st'. chat_turn chat persona st prompt = Inr st'
           \<and> memory st' = Some (fst (set_entry mem (memories_json st) (strip key) (strip val)))
           \<and> memories_json st' = snd (set_entry mem (memories_json st) (strip key) (strip val))
           \<and> last (ui st') = SuccessRemembered (strip key) (strip val)
           \<and> model_calls st' = model_calls st"
    using assms(1-3) kv(2) startswith_nonempty [OF assms(3)]
    by (simp add: chat_turn_def Let_def case_prod_beta)
  then show ?thesis using kv(1) by auto
qed

text \<open>What a prompt that starts with \<open>/remember \<close> does, in a session with its
  transcript and store. When the rest of the prompt behind the prefix does not hold
  exactly one \<open>=\<close>, the turn shows the usage error and leaves the store, the file and
  the calls of the model as they were. When it holds exactly one, the text that
  \<open>str.replace\<close> returns is \<open>key=value\<close>, and \<open>set\<close> stores the value under the key,
  both trimmed. That text is the rest behind the prefix when the rest holds no further
  \<open>/remember \<close>.\<close>

lemma remember_directive:
  assumes "messages st = Some msgs" "memory st = Some mem" "startswith ''/remember '' prompt"
  shows "(count_list (strip_prefix ''/remember '' prompt) CHR ''='' \<noteq> 1
          \<longrightarrow> (\<exists>st'. chat_turn chat persona st prompt = Inr st' \<and> memory st' = memory st
                 \<and> memories_json st' = memories_json st \<and> last (ui st') = ErrorUsage
                 \<and> model_calls st' = model_calls st))
       \<and> (count_list (strip_prefix ''/remember '' prompt) CHR ''='' = 1
          \<longrightarrow> (\<exists>key val st'. str_replace ''/remember '' [] prompt = key @ ''='' @ val
                 \<and> chat_turn chat persona st prompt = Inr st'
                 \<and> memory st' = Some (fst (set_entry mem (memories_json st) (strip key) (strip val)))
                 \<and> memories_json st' = snd (set_entry mem (memories_json st) (strip key) (strip val))
                 \<and> map_of (get_all (fst (set_entry mem (memories_json st) (strip key) (strip val))))
                       (strip key) = Some (strip val)
                 \<and> last (ui st') = SuccessRemembered (strip key) (strip val)
                 \<and> model_calls st' = model_calls st))
       \<and> (\<not> str_contains ''/remember '' (strip_prefix ''/remember '' prompt)
          \<longrightarrow> str_replace ''/remember '' [] prompt = strip_prefix ''/remember '' prompt)"
proof -
  let ?r = "str_replace ''/remember '' [] prompt"
  let ?p = "strip_prefix ''/remember '' prompt"
  obtain rest where pr: "prompt = ''/remember '' @ rest"
    using assms(3) startswith_iff by blast
  have sp: "?p = rest"
    by (simp add: strip_prefix_def startswith_def pr)
  have "count_list ?r CHR ''='' = count_list prompt CHR ''=''"
    using count_str_replace [of "''/remember ''" "CHR ''=''" prompt] by simp
  also have "\<dots> = count_list rest CHR ''=''"
    unfolding pr count_list_append by simp
  finally have cnt: "count_list ?r CHR ''='' = count_list ?p CHR ''=''"
    using sp by simp
  have a: "count_list ?p CHR ''='' \<noteq> 1
          \<longrightarrow> (\<exists>st'. chat_turn chat persona st prompt = Inr st' \<and> memory st' = memory st
                 \<and> memories_json st' = memories_json st \<and> last (ui st') = ErrorUsage
                 \<and> model_calls st' = model_calls st)"
    using remember_usage_error [OF assms] cnt by simp
  have b: "count_list ?p CHR ''='' = 1
          \<longrightarrow> (\<exists>key val st'. ?r = key @ ''='' @ val
                 \<and> chat_turn chat persona st prompt = Inr st'
                 \<and> memory st' = Some (fst (set_entry mem (memories_json st) (strip key) (strip val)))
                 \<and> memories_json st' = snd (set_entry mem (memories_json st) (strip key) (strip val))
                 \<and> map_of (get_all (fst (set_entry mem (memories_json st) (strip key) (strip val))))
                       (strip key) = Some (strip val)
                 \<and> last (ui st') = SuccessRemembered (strip key) (strip val)
                 \<and> model_calls st' = model_calls st)"
  proof
    assume "count_list ?p CHR ''='' = 1"
    then have "count_list ?r CHR ''='' = 1" using cnt by simp
    from remember_stores [OF assms this, of chat persona]
    obtain key val st' where r: "?r = key @ ''='' @ val"
        "chat_turn chat persona st prompt = Inr st'"
        "memory st' = Some (fst (set_entry mem (memories_json st) (strip key) (strip val)))"
        "memories_json st' = snd (set_entry mem (memories_json st) (strip key) (strip val))"
        "last (ui st') = SuccessRemembered (strip key) (strip val)"
        "model_calls st' = model_calls st"
      by blast
    moreover have "map_of (get_all (fst (set_entry mem (memories_json st) (strip key) (strip val))))
                       (strip key) = Some (strip val)"
      by (rule set_entry_get_all)
    ultimately show "\<exists>key val st'. ?r = key @ ''='' @ val
                 \<and> chat_turn chat persona st prompt = Inr st'
                 \<and> memory st' = Some (fst (set_entry mem (memories_json st) (strip key) (strip val)))
                 \<and> memories_json st' = snd (set_entry mem (memories_json st) (strip key) (strip val))
                 \<and> map_of (get_all (fst (set_entry mem (memories_json st) (strip key) (strip val))))
                       (strip key) = Some (strip val)
                 \<and> last (ui st') = SuccessRemembered (strip key) (strip val)
                 \<and> model_calls st' = model_calls st"
      by blast
  qed
  have c: "\<not> str_contains ''/remember '' ?p \<longrightarrow> ?r = ?p"
  proof
    assume "\<not> str_contains ''/remember '' ?p"
    then have "str_replace ''/remember '' [] (''/remember '' @ rest) = rest"
      using str_replace_prefix [of "''/remember ''" rest] sp by simp
    then show "?r = ?p" using sp pr by simp
  qed
  show ?thesis using a b c by blast
qed


lemma remember_directive_example:
  "messages alice_session = Some []
   \<and> memory alice_session = Some \<lparr>profile_id = ''alice'', data = []\<rparr>
   \<and> startswith ''/remember '' ''/remember onlyonevalue''
   \<and> count_list (strip_prefix ''/remember '' ''/remember onlyonevalue'') CHR ''='' \<noteq> 1
   \<and> (\<exists>st'. chat_turn (\<lambda>r. Inr []) ''Student'' alice_session ''/remember onlyonevalue'' = Inr st'
          \<and> memory st' = memory alice_session
          \<and> memories_json st' = memories_json alice_session \<and> last (ui st') = ErrorUsage
          \<and> model_calls st' = model_calls alice_session)
   \<and> memory_after (chat_turn (\<lambda>r. Inr []) ''Student'' alice_session ''/remember onlyonevalue'')
       = Some []
   \<and> startswith ''/remember '' ''/remember budget = 3000 ''
   \<and> count_list (strip_prefix ''/remember '' ''/remember budget = 3000 '') CHR ''='' = 1
   \<and> memory_after (chat_turn (\<lambda>r. Inr []) ''Student'' alice_session ''/remember budget = 3000 '')
       = Some [(''budget'', ''3000'')]"
proof -
  have h1: "messages alice_session = Some []"
    and h2: "memory alice_session = Some \<lparr>profile_id = ''alice'', data = []\<rparr>"
    by (simp_all add: alice_session_def)
  have h3: "startswith ''/remember '' ''/remember onlyonevalue''" by code_simp
  have h4: "count_list (strip_prefix ''/remember '' ''/remember onlyonevalue'') CHR ''='' \<noteq> 1"
    by code_simp
  have h5: "startswith ''/remember '' ''/remember budget = 3000 ''" by code_simp
  have h6: "count_list (strip_prefix ''/remember '' ''/remember budget = 3000 '') CHR ''='' = 1"
    by code_simp
  have e1: "memory_after (chat_turn (\<lambda>r. Inr []) ''Student'' alice_session ''/remember onlyonevalue'')
       = Some []"
    by code_simp
  have e2: "memory_after (chat_turn (\<lambda>r. Inr []) ''Student'' alice_session ''/remember budget = 3000 '')
       = Some [(''budget'', ''3000'')]"
    by code_simp
  have "\<exists>st'. chat_turn (\<lambda>r. Inr []) ''Student'' alice_session ''/remember onlyonevalue'' = Inr st'
          \<and> memory st' = memory alice_session
          \<and> memories_json st' = memories_json alice_session \<and> last (ui st') = ErrorUsage
          \<and> model_calls st' = model_calls alice_session"
    using remember_directive [OF h1 h2 h3, of "\<lambda>r. Inr []" "''Student''"] h4 by blast
  then show ?thesis
    using h1 h2 h3 h4 h5 h6 e1 e2 by blast
qed

text \<open>
  Claim C4. For a prompt that starts with \<open>/remember \<close> and whose rest behind the prefix
  holds exactly one \<open>=\<close>, the key and the value on the two sides of it are stored, both
  trimmed. The code breaks this at the prompt
  \<open>/remember note=call about /remember feature\<close>: the rest behind the prefix holds one
  \<open>=\<close> and the value \<open>call about /remember feature\<close>, and the turn stores
  \<open>call about feature\<close> under \<open>note\<close>, since \<open>prompt.replace\<close> takes the second
  \<open>/remember \<close> out of the value as well.
\<close>

theorem remember_prefix_repeated:
  "startswith ''/remember '' ''/remember note=call about /remember feature''
   \<and> strip_prefix ''/remember '' ''/remember note=call about /remember feature''
       = ''note=call about /remember feature''
   \<and> count_list ''note=call about /remember feature'' CHR ''='' = 1
   \<and> split_on CHR ''='' ''note=call about /remember feature''
       = [''note'', ''call about /remember feature'']
   \<and> memory_after (chat_turn (\<lambda>r. Inr []) ''Student'' alice_session
                      ''/remember note=call about /remember feature'')
       = Some [(''note'', ''call about feature'')]
   \<and> memory_after (chat_turn (\<lambda>r. Inr []) ''Student'' alice_session
                      ''/remember note=call about /remember feature'')
       \<noteq> Some [(''note'', ''call about /remember feature'')]"
  by code_simp

lemma directive_local:
  assumes "messages st = Some msgs" "memory st = Some mem"
      and "is_remember prompt \<or> is_clear prompt \<or> is_what_do_you_remember prompt"
  shows "\<exists>st'. chat_turn chat persona st prompt = Inr st' \<and> model_calls st' = model_calls st
           \<and> is_local_answer (last (ui st'))
           \<and> chat_turn chat' persona st prompt = Inr st'"
  using assms directive_nonempty [OF assms(3)]
  by (auto simp add: chat_turn_def Let_def case_prod_beta is_remember_def is_clear_def
        is_what_do_you_remember_def)

lemma budget_3000:
  assumes "messages st = Some msgs" "memory st = Some mem"
  shows "\<exists>st'. chat_turn chat persona st ''/remember budget=3000'' = Inr st'
           \<and> model_calls st' = model_calls st
           \<and> last (ui st') = SuccessRemembered ''budget'' ''3000''
           \<and> (\<exists>m'. memory st' = Some m' \<and> map_of (get_all m') ''budget'' = Some ''3000'')"
proof -
  have a: "startswith ''/remember '' ''/remember budget=3000''" by code_simp
  have b: "split_on CHR ''='' (str_replace ''/remember '' [] ''/remember budget=3000'')
           = [''budget'', ''3000'']" by code_simp
  have c: "strip ''budget'' = ''budget''" "strip ''3000'' = ''3000''" by code_simp+
  show ?thesis
    using assms a b c set_entry_get_all [of mem "memories_json st" "''budget''" "''3000''"]
    by (simp add: chat_turn_def Let_def case_prod_beta del: split_on.simps)
qed


text \<open>
  Claim C6. In a session with its transcript and store, a prompt that starts with
  \<open>/remember \<close>, or is \<open>/clear\<close> or \<open>what do you remember?\<close> once trimmed and lowercased,
  is answered by the script itself: the turn ends with one of the local answers, no
  request is made to the model, and the outcome is the same whatever the model would
  do. The prompt \<open>/remember budget=3000\<close> stores \<open>3000\<close> under \<open>budget\<close>, confirms it
  and makes no request.
\<close>

theorem directives_never_call_model:
  assumes "messages st = Some msgs" "memory st = Some mem"
      and "is_remember prompt \<or> is_clear prompt \<or> is_what_do_you_remember prompt"
  shows "(\<exists>st'. chat_turn chat persona st prompt = Inr st' \<and> model_calls st' = model_calls st
           \<and> is_local_answer (last (ui st'))
           \<and> chat_turn chat' persona st prompt = Inr st')
       \<and> (\<exists>st'. chat_turn chat persona st ''/remember budget=3000'' = Inr st'
           \<and> model_calls st' = model_calls st
           \<and> last (ui st') = SuccessRemembered ''budget'' ''3000''
           \<and> (\<exists>m'. memory st' = Some m' \<and> map_of (get_all m') ''budget'' = Some ''3000''))"
  using directive_local [OF assms, of chat persona chat'] budget_3000 [OF assms(1,2), of chat persona]
  by blast

theorem directives_never_call_model_witness:
  "messages alice_session = Some []
   \<and> memory alice_session = Some \<lparr>profile_id = ''alice'', data = []\<rparr>
   \<and> is_clear '' /CLEAR ''
   \<and> (\<exists>st'. chat_turn (\<lambda>r. Inr ''hello'') ''Student'' alice_session '' /CLEAR '' = Inr st'
          \<and> model_calls st' = model_calls alice_session
          \<and> is_local_answer (last (ui st'))
          \<and> chat_turn (\<lambda>r. Inl ''down'') ''Student'' alice_session '' /CLEAR '' = Inr st')
   \<and> memory_after (chat_turn (\<lambda>r. Inr ''hello'') ''Student'' alice_session ''/remember budget=3000'')
       = Some [(''budget'', ''3000'')]"
proof -
  have h1: "messages alice_session = Some []"
    and h2: "memory alice_session = Some \<lparr>profile_id = ''alice'', data = []\<rparr>"
    by (simp_all add: alice_session_def)
  have h3: "is_clear '' /CLEAR ''" by code_simp
  have e: "memory_after (chat_turn (\<lambda>r. Inr ''hello'') ''Student'' alice_session ''/remember budget=3000'')
       = Some [(''budget'', ''3000'')]"
    by code_simp
  have "\<exists>st'. chat_turn (\<lambda>r. Inr ''hello'') ''Student'' alice_session '' /CLEAR '' = Inr st'
          \<and> model_calls st' = model_calls alice_session
          \<and> is_local_answer (last (ui st'))
          \<and> chat_turn (\<lambda>r. Inl ''down'') ''Student'' alice_session '' /CLEAR '' = Inr st'"
    using directives_never_call_model [OF h1 h2, of "'' /CLEAR ''" "\<lambda>r. Inr ''hello''" "''Student''"
            "\<lambda>r. Inl ''down''"] h3
    by blast
  then show ?thesis
    using h1 h2 h3 e by blast
qed

text \<open>
  Claim C7. For a prompt that is not empty and no directive, with the model loaded and returning a
  text: when the lowercased text contains \<open>error\<close>, \<open>apologize\<close> or \<open>sorry\<close>, the page
  shows the retry message and the transcript gains the user's turn only; otherwise the
  page shows the text and the transcript gains the user's turn and the text as the
  assistant's turn. One request is made to the model.
\<close>

theorem response_validation:
  assumes "messages st = Some msgs" "memory st = Some mem" "model_ready st" "prompt \<noteq> []"
      and "\<not> is_remember prompt" "\<not> is_clear prompt" "\<not> is_what_do_you_remember prompt"
      and "chat \<lparr>persona_of = persona, memory_context = get_all mem, user_message = prompt,
                 max_new_tokens = 1024\<rparr> = Inr response"
  shows "\<exists>st'. chat_turn chat persona st prompt = Inr st'
           \<and> model_calls st' = model_calls st @ [\<lparr>persona_of = persona, memory_context = get_all mem,
                                                  user_message = prompt, max_new_tokens = 1024\<rparr>]
           \<and> (if str_contains ''error'' (lower response) \<or> str_contains ''apologize'' (lower response)
                  \<or> str_contains ''sorry'' (lower response)
               then ui st' = ui st @ [ChatMessage User prompt, ErrorRetry]
                    \<and> messages st' = Some (msgs @ [(User, Text prompt)])
               else ui st' = ui st @ [ChatMessage User prompt, ChatMessage Assistant response]
                    \<and> messages st' = Some (msgs @ [(User, Text prompt), (Assistant, Text response)]))"
  using assms
  by (simp add: chat_turn_def Let_def is_remember_def is_clear_def is_what_do_you_remember_def
        looks_failed_def)

theorem response_validation_witness:
  "messages alice_session = Some []
   \<and> memory alice_session = Some \<lparr>profile_id = ''alice'', data = []\<rparr>
   \<and> model_ready alice_session \<and> ''How should I save?'' \<noteq> []
   \<and> \<not> is_remember ''How should I save?'' \<and> \<not> is_clear ''How should I save?''
   \<and> \<not> is_what_do_you_remember ''How should I save?''
   \<and> str_contains ''sorry'' (lower ''I am Sorry, no.'')
   \<and> (\<exists>st'. chat_turn (\<lambda>r. Inr ''I am Sorry, no.'') ''Student'' alice_session ''How should I save?''
              = Inr st'
          \<and> ui st' = ui alice_session @ [ChatMessage User ''How should I save?'', ErrorRetry]
          \<and> messages st' = Some ([] @ [(User, Text ''How should I save?'')]))
   \<and> \<not> str_contains ''error'' (lower ''Spend less.'')
   \<and> \<not> str_contains ''apologize'' (lower ''Spend less.'')
   \<and> \<not> str_contains ''sorry'' (lower ''Spend less.'')
   \<and> (\<exists>st'. chat_turn (\<lambda>r. Inr ''Spend less.'') ''Student'' alice_session ''How should I save?''
              = Inr st'
          \<and> ui st' = ui alice_session
                       @ [ChatMessage User ''How should I save?'', ChatMessage Assistant ''Spend less.'']
          \<and> messages st' = Some ([] @ [(User, Text ''How should I save?''),
                                        (Assistant, Text ''Spend less.'')]))"
proof -
  have h1: "messages alice_session = Some []"
    and h2: "memory alice_session = Some \<lparr>profile_id = ''alice'', data = []\<rparr>"
    and h3: "model_ready alice_session"
    by (simp_all add: alice_session_def)
  have h0: "''How should I save?'' \<noteq> []" by simp
  have h4: "\<not> is_remember ''How should I save?''" by code_simp
  have h5: "\<not> is_clear ''How should I save?''" by code_simp
  have h6: "\<not> is_what_do_you_remember ''How should I save?''" by code_simp
  have s1: "str_contains ''sorry'' (lower ''I am Sorry, no.'')" by code_simp
  have s2: "\<not> str_contains ''error'' (lower ''Spend less.'')"
           "\<not> str_contains ''apologize'' (lower ''Spend less.'')"
           "\<not> str_contains ''sorry'' (lower ''Spend less.'')"
    by code_simp+
  have a: "\<exists>st'. chat_turn (\<lambda>r. Inr ''I am Sorry, no.'') ''Student'' alice_session ''How should I save?''
              = Inr st'
          \<and> ui st' = ui alice_session @ [ChatMessage User ''How should I save?'', ErrorRetry]
          \<and> messages st' = Some ([] @ [(User, Text ''How should I save?'')])"
    using response_validation [OF h1 h2 h3 h0 h4 h5 h6, of "\<lambda>r. Inr ''I am Sorry, no.''" "''Student''"
            "''I am Sorry, no.''"] s1
    by auto
  have b: "\<exists>st'. chat_turn (\<lambda>r. Inr ''Spend less.'') ''Student'' alice_session ''How should I save?''
              = Inr st'
          \<and> ui st' = ui alice_session
                       @ [ChatMessage User ''How should I save?'', ChatMessage Assistant ''Spend less.'']
          \<and> messages st' = Some ([] @ [(User, Text ''How should I save?''),
                                        (Assistant, Text ''Spend less.'')])"
    using response_validation [OF h1 h2 h3 h0 h4 h5 h6, of "\<lambda>r. Inr ''Spend less.''" "''Student''"
            "''Spend less.''"] s2
    by auto
  show ?thesis
    using h1 h2 h3 h4 h5 h6 s1 s2 a b by blast
qed

end
